theory Spec2Isabelle
  imports Main
begin

section \<open>js-joda \<open>ZoneOffset\<close>: a shallow embedding of \<open>src/ZoneOffset.js\<close>\<close>

text \<open>
  The module keeps one piece of mutable state, the object \<open>SECONDS_CACHE\<close>, and
  allocates \<open>ZoneOffset\<close> objects whose identity is observable (\<open>this === obj\<close> in
  \<open>equals\<close>). The model therefore threads an explicit state: a heap of objects
  addressed by references, and the cache as a map from keys to references.

  Numbers: the arguments are integer-valued JavaScript numbers and are modelled as
  \<open>int\<close>. The comparisons, \<open>Math.abs\<close> and \<open>%\<close> of the source are exact on such
  values, and the sum \<open>hours * 3600 + minutes * 60 + seconds\<close> is only computed
  after the validator has bounded its operands. The type \<open>int\<close> is unbounded; it
  idealises the integers beyond \<open>2^53\<close>, all of which the source rejects as out of
  range.

  \<open>ZoneOffset.MAX_SECONDS\<close> is assigned by the first statement of \<open>_init\<close>, before
  the first call of \<open>ofTotalSeconds\<close>; the model covers the module from that point
  on, so the constant has its value in every modelled call.
\<close>

subsection \<open>Collaborators that are not part of the source file\<close>

text \<open>
  Modelled from the spec: \<open>LocalTime.SECONDS_PER_HOUR\<close> is imported from
  \<open>./LocalTime\<close>; the spec fixes it through \<open>MAX_SECONDS = 18 \<times> 3600\<close> and
  \<open>totalSeconds = h\<times>3600 + m\<times>60 + s\<close>.
\<close>

definition SECONDS_PER_HOUR :: int where
  "SECONDS_PER_HOUR = 3600"

text \<open>
  Modelled from the spec: \<open>LocalTime.SECONDS_PER_MINUTE\<close> is imported from
  \<open>./LocalTime\<close>; the spec fixes it through \<open>totalSeconds = h\<times>3600 + m\<times>60 + s\<close> and
  \<open>totalSeconds = tm \<times> 60\<close>.
\<close>

definition SECONDS_PER_MINUTE :: int where
  "SECONDS_PER_MINUTE = 60"

text \<open>
  Modelled from the spec: \<open>LocalTime.MINUTES_PER_HOUR\<close> is imported from
  \<open>./LocalTime\<close>; the spec fixes it through \<open>absMinutes = (|totalSeconds| / 60) mod 60\<close>.
\<close>

definition MINUTES_PER_HOUR :: int where
  "MINUTES_PER_HOUR = 60"

text \<open>
  Modelled from the spec: \<open>MathUtil.intDiv\<close> is imported from \<open>./MathUtil\<close>; the
  spec describes it as integer division with C-style truncation toward zero.
\<close>

definition intDiv :: "int \<Rightarrow> int \<Rightarrow> int" where
  "intDiv x y = sgn x * sgn y * (\<bar>x\<bar> div \<bar>y\<bar>)"

text \<open>
  Modelled from the spec: \<open>MathUtil.intMod\<close> is imported from \<open>./MathUtil\<close>; the
  spec describes it as the modulo that goes with the truncating division.
\<close>

definition intMod :: "int \<Rightarrow> int \<Rightarrow> int" where
  "intMod x y = x - intDiv x y * y"

subsection \<open>JavaScript primitives used by the source\<close>

text \<open>The remainder operator \<open>%\<close>: the result takes the sign of the dividend.\<close>

definition js_rem :: "int \<Rightarrow> int \<Rightarrow> int" where
  "js_rem a b = sgn a * (\<bar>a\<bar> mod \<bar>b\<bar>)"

text \<open>
  String concatenation with a number converts the number to its decimal numeral
  (for integers of magnitude below \<open>10^21\<close>, which is where JavaScript switches to
  exponent notation).
\<close>

definition digit_char :: "nat \<Rightarrow> char" where
  "digit_char d =
     (if d = 0 then CHR ''0'' else if d = 1 then CHR ''1'' else if d = 2 then CHR ''2''
      else if d = 3 then CHR ''3'' else if d = 4 then CHR ''4'' else if d = 5 then CHR ''5''
      else if d = 6 then CHR ''6'' else if d = 7 then CHR ''7'' else if d = 8 then CHR ''8''
      else CHR ''9'')"

fun decimal :: "nat \<Rightarrow> string" where
  "decimal n = (if n < 10 then [digit_char n] else decimal (n div 10) @ [digit_char (n mod 10)])"

declare decimal.simps [simp del]

definition Number_toString :: "int \<Rightarrow> string" where
  "Number_toString n = (if n < 0 then CHR ''-'' # decimal (nat (- n)) else decimal (nat n))"

subsection \<open>Errors\<close>

text \<open>Every \<open>throw new DateTimeException(msg)\<close> is the value \<open>Inl (DateTimeException msg)\<close>.\<close>

datatype error = DateTimeException string

subsection \<open>The pure static helpers\<close>

definition MAX_SECONDS :: int where
  "MAX_SECONDS = 18 * SECONDS_PER_HOUR"

definition buildId :: "int \<Rightarrow> string" where
  "buildId totalSeconds =
     (if totalSeconds = 0 then ''Z''
      else
        let absTotalSeconds = \<bar>totalSeconds\<bar>;
            absHours = intDiv absTotalSeconds SECONDS_PER_HOUR;
            absMinutes = intMod (intDiv absTotalSeconds SECONDS_PER_MINUTE) MINUTES_PER_HOUR;
            buf = '''' @ (if totalSeconds < 0 then ''-'' else ''+'')
                  @ (if absHours < 10 then ''0'' else '''') @ Number_toString absHours
                  @ (if absMinutes < 10 then '':0'' else '':'') @ Number_toString absMinutes;
            absSeconds = intMod absTotalSeconds SECONDS_PER_MINUTE
        in if absSeconds \<noteq> 0
           then buf @ (if absSeconds < 10 then '':0'' else '':'') @ Number_toString absSeconds
           else buf)"

definition validateTotalSeconds :: "int \<Rightarrow> error + unit" where
  "validateTotalSeconds totalSeconds =
     (if \<bar>totalSeconds\<bar> > MAX_SECONDS
      then Inl (DateTimeException ''Zone offset not in valid range: -18:00 to +18:00'')
      else Inr ())"

text \<open>
  \<open>_validate\<close>: the first \<open>if\<close>, then the \<open>if / else if / else if\<close> chain on the sign
  of \<open>hours\<close> (which falls through when its inner test passes), then three more
  \<open>if\<close>s, each throwing at once.
\<close>

definition sign_check :: "int \<Rightarrow> int \<Rightarrow> int \<Rightarrow> error + unit" where
  "sign_check hours minutes seconds =
     (if hours > 0 then
        (if minutes < 0 \<or> seconds < 0
         then Inl (DateTimeException
                ''Zone offset minutes and seconds must be positive because hours is positive'')
         else Inr ())
      else if hours < 0 then
        (if minutes > 0 \<or> seconds > 0
         then Inl (DateTimeException
                ''Zone offset minutes and seconds must be negative because hours is negative'')
         else Inr ())
      else if (minutes > 0 \<and> seconds < 0) \<or> (minutes < 0 \<and> seconds > 0)
      then Inl (DateTimeException ''Zone offset minutes and seconds must have the same sign'')
      else Inr ())"

definition validate :: "int \<Rightarrow> int \<Rightarrow> int \<Rightarrow> error + unit" where
  "validate hours minutes seconds =
     (if hours < -18 \<or> hours > 18
      then Inl (DateTimeException
             (''Zone offset hours not in valid range: value '' @ Number_toString hours
              @ '' is not in the range -18 to 18''))
      else case sign_check hours minutes seconds of
        Inl e \<Rightarrow> Inl e
      | Inr _ \<Rightarrow>
          if \<bar>minutes\<bar> > 59
          then Inl (DateTimeException
                 (''Zone offset minutes not in valid range: abs(value) ''
                  @ Number_toString \<bar>minutes\<bar> @ '' is not in the range 0 to 59''))
          else if \<bar>seconds\<bar> > 59
          then Inl (DateTimeException
                 (''Zone offset seconds not in valid range: abs(value) ''
                  @ Number_toString \<bar>seconds\<bar> @ '' is not in the range 0 to 59''))
          else if \<bar>hours\<bar> = 18 \<and> (\<bar>minutes\<bar> > 0 \<or> \<bar>seconds\<bar> > 0)
          then Inl (DateTimeException ''Zone offset not in valid range: -18:00 to +18:00'')
          else Inr ())"

subsection \<open>Objects, the heap and the cache\<close>

type_synonym ref = nat

text \<open>
  Modelled from the spec: the class \<open>ZoneRules\<close> is imported from
  \<open>./zone/ZoneRules\<close>; the spec describes the object that an offset holds as a
  constant-offset rule object, made for that offset, which answers every query with
  it. The handle records the offset object it was made for.
\<close>

datatype ZoneRules = Fixed ref

text \<open>
  Modelled from the spec: \<open>ZoneRules.of(this)\<close>, the rules factory, which the spec
  describes as producing, given an offset, its constant rule object; it does not
  throw and touches neither the cache nor an existing offset.
\<close>

definition ZoneRules_of :: "ref \<Rightarrow> ZoneRules" where
  "ZoneRules_of this = Fixed this"

record ZoneOffset =
  f_totalSeconds :: int
  f_rules :: ZoneRules
  f_id :: string

text \<open>
  The heap holds the \<open>ZoneOffset\<close> instances and, for the argument of \<open>equals\<close>,
  objects of any other class. A reference is an index into the heap; \<open>new\<close>
  appends, so a new reference differs from every earlier one.
\<close>

datatype heap_obj = ZoneOffset_obj ZoneOffset | Foreign_obj

datatype jsval = Undefined | Null | Boolean bool | Number int | String string | Object ref

text \<open>
  \<open>SECONDS_CACHE\<close> is a plain object indexed by \<open>totalSecs\<close>. Property keys are
  the decimal numerals of the numbers, which are distinct for distinct integers, so
  the cache is a map on the integers. Only \<open>ZoneOffset\<close> references are ever
  stored, so the test \<open>result == null\<close> is the test for an absent key.
\<close>

record state =
  heap :: "heap_obj list"
  SECONDS_CACHE :: "int \<rightharpoonup> ref"

definition initial_state :: state where
  "initial_state = \<lparr>heap = [], SECONDS_CACHE = Map.empty\<rparr>"

definition get_ZoneOffset :: "state \<Rightarrow> ref \<Rightarrow> ZoneOffset option" where
  "get_ZoneOffset st r =
     (if r < length (heap st)
      then (case heap st ! r of ZoneOffset_obj z \<Rightarrow> Some z | Foreign_obj \<Rightarrow> None)
      else None)"

definition instanceof_ZoneOffset :: "state \<Rightarrow> jsval \<Rightarrow> bool" where
  "instanceof_ZoneOffset st v =
     (case v of Object r \<Rightarrow> get_ZoneOffset st r \<noteq> None | _ \<Rightarrow> False)"

subsection \<open>The constructor and the factories\<close>

text \<open>
  \<open>new ZoneOffset(totalSeconds)\<close>: \<open>super()\<close> runs the constructor of \<open>ZoneId\<close>,
  which is outside the source file and is taken to have no effect on the cache or
  on other objects. When the range check throws, the half-built
  object is never handed to anyone, so the state is returned as it was.
\<close>

definition new_ZoneOffset :: "int \<Rightarrow> state \<Rightarrow> (error + ref) \<times> state" where
  "new_ZoneOffset totalSeconds st =
     (case validateTotalSeconds totalSeconds of
        Inl e \<Rightarrow> (Inl e, st)
      | Inr _ \<Rightarrow>
          let this = length (heap st);
              obj = \<lparr>f_totalSeconds = totalSeconds,
                     f_rules = ZoneRules_of this,
                     f_id = buildId totalSeconds\<rparr>
          in (Inr this, st\<lparr>heap := heap st @ [ZoneOffset_obj obj]\<rparr>))"

definition ofTotalSeconds :: "int \<Rightarrow> state \<Rightarrow> (error + ref) \<times> state" where
  "ofTotalSeconds totalSeconds st =
     (if js_rem totalSeconds (15 * SECONDS_PER_MINUTE) = 0 then
        let totalSecs = totalSeconds in
        (case SECONDS_CACHE st totalSecs of
           None \<Rightarrow>
             (case new_ZoneOffset totalSeconds st of
                (Inl e, st') \<Rightarrow> (Inl e, st')
              | (Inr result, st') \<Rightarrow>
                  (Inr result, st'\<lparr>SECONDS_CACHE := (SECONDS_CACHE st')(totalSecs \<mapsto> result)\<rparr>))
         | Some result \<Rightarrow> (Inr result, st))
      else new_ZoneOffset totalSeconds st)"

definition ofHoursMinutesSeconds :: "int \<Rightarrow> int \<Rightarrow> int \<Rightarrow> state \<Rightarrow> (error + ref) \<times> state" where
  "ofHoursMinutesSeconds hours minutes seconds st =
     (case validate hours minutes seconds of
        Inl e \<Rightarrow> (Inl e, st)
      | Inr _ \<Rightarrow>
          let totalSeconds = hours * SECONDS_PER_HOUR + minutes * SECONDS_PER_MINUTE + seconds
          in ofTotalSeconds totalSeconds st)"

definition ofHours :: "int \<Rightarrow> state \<Rightarrow> (error + ref) \<times> state" where
  "ofHours hours st = ofHoursMinutesSeconds hours 0 0 st"

definition ofHoursMinutes :: "int \<Rightarrow> int \<Rightarrow> state \<Rightarrow> (error + ref) \<times> state" where
  "ofHoursMinutes hours minutes st = ofHoursMinutesSeconds hours minutes 0 st"

definition ofTotalMinutes :: "int \<Rightarrow> state \<Rightarrow> (error + ref) \<times> state" where
  "ofTotalMinutes totalMinutes st =
     (let totalSeconds = totalMinutes * SECONDS_PER_MINUTE
      in ofTotalSeconds totalSeconds st)"

subsection \<open>The instance methods\<close>

text \<open>
  A method is called on a reference \<open>this\<close>; the result is \<open>None\<close> when \<open>this\<close>
  is not a \<open>ZoneOffset\<close> of the heap (there is then no such call).
\<close>

definition totalSeconds :: "state \<Rightarrow> ref \<Rightarrow> int option" where
  "totalSeconds st this = map_option f_totalSeconds (get_ZoneOffset st this)"

definition id_of :: "state \<Rightarrow> ref \<Rightarrow> string option" where
  "id_of st this = map_option f_id (get_ZoneOffset st this)"

definition rules :: "state \<Rightarrow> ref \<Rightarrow> ZoneRules option" where
  "rules st this = map_option f_rules (get_ZoneOffset st this)"

definition equals :: "state \<Rightarrow> ref \<Rightarrow> jsval \<Rightarrow> bool option" where
  "equals st this obj =
     (case get_ZoneOffset st this of
        None \<Rightarrow> None
      | Some t \<Rightarrow>
          Some (if Object this = obj then True
                else if instanceof_ZoneOffset st obj then
                  (case obj of
                     Object r \<Rightarrow>
                       (case get_ZoneOffset st r of
                          Some z \<Rightarrow> f_totalSeconds t = f_totalSeconds z
                        | None \<Rightarrow> False)
                   | _ \<Rightarrow> False)
                else False))"

definition hashCode :: "state \<Rightarrow> ref \<Rightarrow> int option" where
  "hashCode st this = map_option f_totalSeconds (get_ZoneOffset st this)"

definition toString :: "state \<Rightarrow> ref \<Rightarrow> string option" where
  "toString st this = map_option f_id (get_ZoneOffset st this)"

subsection \<open>Runs of the module\<close>

text \<open>
  What a client can do: call a factory, call the exported constructor, or allocate
  an object of its own. \<open>SECONDS_CACHE\<close> is private to the module, so nothing else
  writes it. \<open>run as st\<close> is the state after the actions \<open>as\<close>, performed from left
  to right starting in \<open>st\<close>; the states of the running module are
  \<open>run as initial_state\<close>.
\<close>

datatype action =
    OfHours int
  | OfHoursMinutes int int
  | OfHoursMinutesSeconds int int int
  | OfTotalMinutes int
  | OfTotalSeconds int
  | New int
  | Alloc_foreign

fun exec :: "action \<Rightarrow> state \<Rightarrow> (error + ref) \<times> state" where
  "exec (OfHours h) st = ofHours h st"
| "exec (OfHoursMinutes h m) st = ofHoursMinutes h m st"
| "exec (OfHoursMinutesSeconds h m s) st = ofHoursMinutesSeconds h m s st"
| "exec (OfTotalMinutes tm) st = ofTotalMinutes tm st"
| "exec (OfTotalSeconds ts) st = ofTotalSeconds ts st"
| "exec (New ts) st = new_ZoneOffset ts st"
| "exec Alloc_foreign st = (Inr (length (heap st)), st\<lparr>heap := heap st @ [Foreign_obj]\<rparr>)"

fun run :: "action list \<Rightarrow> state \<Rightarrow> state" where
  "run [] st = st"
| "run (a # as) st = run as (snd (exec a st))"

text \<open>
  \<open>_init\<close> after the assignment of \<open>MAX_SECONDS\<close>: the three constants \<open>UTC\<close>,
  \<open>MIN\<close> and \<open>MAX\<close> are made by \<open>ofTotalSeconds\<close>, in this order.
\<close>

definition init :: "state \<Rightarrow> state" where
  "init st =
     (let st1 = snd (ofTotalSeconds 0 st);
          st2 = snd (ofTotalSeconds (- MAX_SECONDS) st1)
      in snd (ofTotalSeconds MAX_SECONDS st2))"

subsection \<open>Notions of the specification\<close>

text \<open>
  Two-digit zero-padded rendering: the decimal numeral, filled with \<open>0\<close> on the
  left up to two characters.
\<close>

definition zero_padded2 :: "int \<Rightarrow> string" where
  "zero_padded2 n = (let d = Number_toString n in replicate (2 - length d) (CHR ''0'') @ d)"

text \<open>
  The seven rules of the triple form in their stated order: \<open>first_violation\<close> is
  the number of the first rule that the triple breaks, \<open>None\<close> when it breaks none.
\<close>

definition first_violation :: "int \<Rightarrow> int \<Rightarrow> int \<Rightarrow> nat option" where
  "first_violation h m s =
     (if \<not> (-18 \<le> h \<and> h \<le> 18) then Some 1
      else if h > 0 \<and> \<not> (m \<ge> 0 \<and> s \<ge> 0) then Some 2
      else if h < 0 \<and> \<not> (m \<le> 0 \<and> s \<le> 0) then Some 3
      else if h = 0 \<and> ((m > 0 \<and> s < 0) \<or> (m < 0 \<and> s > 0)) then Some 4
      else if \<not> \<bar>m\<bar> \<le> 59 then Some 5
      else if \<not> \<bar>s\<bar> \<le> 59 then Some 6
      else if \<bar>h\<bar> = 18 \<and> \<not> (m = 0 \<and> s = 0) then Some 7
      else None)"

text \<open>The exception that the source throws for each rule.\<close>

definition rule_error :: "nat \<Rightarrow> int \<Rightarrow> int \<Rightarrow> int \<Rightarrow> error" where
  "rule_error k h m s =
     (if k = 1 then DateTimeException
        (''Zone offset hours not in valid range: value '' @ Number_toString h
         @ '' is not in the range -18 to 18'')
      else if k = 2 then DateTimeException
        ''Zone offset minutes and seconds must be positive because hours is positive''
      else if k = 3 then DateTimeException
        ''Zone offset minutes and seconds must be negative because hours is negative''
      else if k = 4 then DateTimeException
        ''Zone offset minutes and seconds must have the same sign''
      else if k = 5 then DateTimeException
        (''Zone offset minutes not in valid range: abs(value) '' @ Number_toString \<bar>m\<bar>
         @ '' is not in the range 0 to 59'')
      else if k = 6 then DateTimeException
        (''Zone offset seconds not in valid range: abs(value) '' @ Number_toString \<bar>s\<bar>
         @ '' is not in the range 0 to 59'')
      else DateTimeException ''Zone offset not in valid range: -18:00 to +18:00'')"

text \<open>
  The invariant of the running module: every cache entry is a 15-minute-aligned key
  in range that refers to a \<open>ZoneOffset\<close> of the heap holding that key, and every
  \<open>ZoneOffset\<close> of the heap is in range and carries the id built from its seconds.
\<close>

definition cache_ok :: "state \<Rightarrow> bool" where
  "cache_ok st =
     (\<forall>k r. SECONDS_CACHE st k = Some r \<longrightarrow>
        \<bar>k\<bar> \<le> MAX_SECONDS \<and> js_rem k (15 * SECONDS_PER_MINUTE) = 0 \<and>
        (\<exists>z. get_ZoneOffset st r = Some z \<and> f_totalSeconds z = k))"

definition heap_ok :: "state \<Rightarrow> bool" where
  "heap_ok st =
     (\<forall>r z. get_ZoneOffset st r = Some z \<longrightarrow>
        \<bar>f_totalSeconds z\<bar> \<le> MAX_SECONDS \<and> f_id z = buildId (f_totalSeconds z)
        \<and> f_rules z = Fixed r)"

text \<open>\<open>st'\<close> extends \<open>st\<close>: objects and cache entries stay as they are.\<close>

definition extends :: "state \<Rightarrow> state \<Rightarrow> bool" where
  "extends st st' =
     ((\<forall>r z. get_ZoneOffset st r = Some z \<longrightarrow> get_ZoneOffset st' r = Some z) \<and>
      (\<forall>k r. SECONDS_CACHE st k = Some r \<longrightarrow> SECONDS_CACHE st' k = Some r))"

section \<open>Auxiliary facts\<close>

subsection \<open>Arithmetic helpers and number rendering\<close>

lemma intDiv_nonneg: "0 \<le> x \<Longrightarrow> 0 < y \<Longrightarrow> intDiv x y = x div y"
  by (cases "x = 0") (simp_all add: intDiv_def)

lemma intMod_nonneg: "0 \<le> x \<Longrightarrow> 0 < y \<Longrightarrow> intMod x y = x mod y"
  by (simp add: intMod_def intDiv_nonneg minus_div_mult_eq_mod)

lemma decimal_one: "n < 10 \<Longrightarrow> decimal n = [digit_char n]"
  by (subst decimal.simps) simp

lemma decimal_two: "10 \<le> n \<Longrightarrow> n < 100 \<Longrightarrow> decimal n = [digit_char (n div 10), digit_char (n mod 10)]"
  by (subst decimal.simps) (simp add: decimal_one)

lemma toString_small:
  "0 \<le> n \<Longrightarrow> n < 100 \<Longrightarrow>
   (if n < 10 then ''0'' else '''') @ Number_toString n
     = [digit_char (nat n div 10), digit_char (nat n mod 10)]"
  by (auto simp: Number_toString_def decimal_one decimal_two digit_char_def)

lemma zero_padded2_small:
  "0 \<le> n \<Longrightarrow> n < 100 \<Longrightarrow> zero_padded2 n = [digit_char (nat n div 10), digit_char (nat n mod 10)]"
  by (cases "n < 10") (auto simp: zero_padded2_def Number_toString_def decimal_one decimal_two digit_char_def)

lemma pad_code: "0 \<le> n \<Longrightarrow> n < 100 \<Longrightarrow> (if n < 10 then ''0'' else '''') @ Number_toString n = zero_padded2 n"
  by (simp only: toString_small zero_padded2_small)

lemma pad_code_colon: "0 \<le> n \<Longrightarrow> n < 100 \<Longrightarrow> (if n < 10 then '':0'' else '':'') @ Number_toString n = '':'' @ zero_padded2 n"
  using pad_code[of n] by (auto split: if_splits)

lemma buildId_general:
  assumes "\<bar>ts\<bar> \<le> 64800"
  shows "buildId ts =
     (if ts = 0 then ''Z''
      else (if ts < 0 then ''-'' else ''+'')
           @ zero_padded2 (\<bar>ts\<bar> div 3600) @ '':'' @ zero_padded2 ((\<bar>ts\<bar> div 60) mod 60)
           @ (if \<bar>ts\<bar> mod 60 \<noteq> 0 then '':'' @ zero_padded2 (\<bar>ts\<bar> mod 60) else ''''))"
proof (cases "ts = 0")
  case True
  then show ?thesis by (simp add: buildId_def)
next
  case False
  let ?a = "\<bar>ts\<bar>"
  have h: "0 \<le> ?a div 3600" "?a div 3600 < 100" using assms by auto
  have m: "0 \<le> (?a div 60) mod 60" "(?a div 60) mod 60 < 100" by auto
  have s: "0 \<le> ?a mod 60" "?a mod 60 < 100" by auto
  have d1: "intDiv ?a SECONDS_PER_HOUR = ?a div 3600"
    by (simp add: intDiv_nonneg SECONDS_PER_HOUR_def)
  have d2: "intMod (intDiv ?a SECONDS_PER_MINUTE) MINUTES_PER_HOUR = (?a div 60) mod 60"
    by (simp add: intDiv_nonneg intMod_nonneg SECONDS_PER_MINUTE_def MINUTES_PER_HOUR_def)
  have d3: "intMod ?a SECONDS_PER_MINUTE = ?a mod 60"
    by (simp add: intMod_nonneg SECONDS_PER_MINUTE_def)
  show ?thesis
    unfolding buildId_def Let_def d1 d2 d3
    using False pad_code[OF h] pad_code_colon[OF m] pad_code_colon[OF s]
    by simp
qed

subsection \<open>Constructor, cache and invariant\<close>

lemma MAX_SECONDS_eq: "MAX_SECONDS = 64800"
  by (simp add: MAX_SECONDS_def SECONDS_PER_HOUR_def)

lemma js_rem_zero_iff: "js_rem a 900 = 0 \<longleftrightarrow> 900 dvd a"
proof -
  have "js_rem a 900 = 0 \<longleftrightarrow> \<bar>a\<bar> mod 900 = 0"
    by (cases "a = 0") (auto simp: js_rem_def sgn_if)
  also have "\<dots> \<longleftrightarrow> 900 dvd a"
    by (simp add: dvd_eq_mod_eq_0 [symmetric])
  finally show ?thesis .
qed

lemma aligned_iff: "js_rem ts (15 * SECONDS_PER_MINUTE) = 0 \<longleftrightarrow> 900 dvd ts"
  by (simp add: SECONDS_PER_MINUTE_def js_rem_zero_iff)

lemma validateTotalSeconds_ok: "\<bar>ts\<bar> \<le> 64800 \<Longrightarrow> validateTotalSeconds ts = Inr ()"
  by (simp add: validateTotalSeconds_def MAX_SECONDS_eq)

lemma validateTotalSeconds_bad:
  "\<bar>ts\<bar> > 64800 \<Longrightarrow> validateTotalSeconds ts
     = Inl (DateTimeException ''Zone offset not in valid range: -18:00 to +18:00'')"
  by (simp add: validateTotalSeconds_def MAX_SECONDS_eq)

lemma new_ok:
  "\<bar>ts\<bar> \<le> 64800 \<Longrightarrow> new_ZoneOffset ts st =
     (Inr (length (heap st)),
      st\<lparr>heap := heap st @ [ZoneOffset_obj \<lparr>f_totalSeconds = ts,
               f_rules = Fixed (length (heap st)), f_id = buildId ts\<rparr>]\<rparr>)"
  by (simp add: new_ZoneOffset_def validateTotalSeconds_ok ZoneRules_of_def Let_def)

lemma new_bad:
  "\<bar>ts\<bar> > 64800 \<Longrightarrow> new_ZoneOffset ts st =
     (Inl (DateTimeException ''Zone offset not in valid range: -18:00 to +18:00''), st)"
  by (simp add: new_ZoneOffset_def validateTotalSeconds_bad)

lemma get_append:
  "get_ZoneOffset (st\<lparr>heap := heap st @ [x]\<rparr>) r =
     (if r = length (heap st) then (case x of ZoneOffset_obj z \<Rightarrow> Some z | Foreign_obj \<Rightarrow> None)
      else get_ZoneOffset st r)"
  by (auto simp: get_ZoneOffset_def nth_append)

lemma get_cache_upd [simp]:
  "get_ZoneOffset (st\<lparr>SECONDS_CACHE := c\<rparr>) r = get_ZoneOffset st r"
  by (simp add: get_ZoneOffset_def)

lemma get_Some_less: "get_ZoneOffset st r = Some z \<Longrightarrow> r < length (heap st)"
  by (simp add: get_ZoneOffset_def split: if_splits)

lemma get_fresh: "get_ZoneOffset st (length (heap st)) = None"
  by (simp add: get_ZoneOffset_def)

lemma extends_refl: "extends st st"
  by (simp add: extends_def)

lemma extends_trans: "extends a b \<Longrightarrow> extends b c \<Longrightarrow> extends a c"
  by (simp add: extends_def)

lemma extends_append: "extends st (st\<lparr>heap := heap st @ [x]\<rparr>)"
  by (auto simp: extends_def get_append dest: get_Some_less)

lemma heap_ok_foreign: "heap_ok st \<Longrightarrow> heap_ok (st\<lparr>heap := heap st @ [Foreign_obj]\<rparr>)"
  by (auto simp: heap_ok_def get_append split: if_splits)

lemma cache_ok_append: "cache_ok st \<Longrightarrow> cache_ok (st\<lparr>heap := heap st @ [x]\<rparr>)"
  unfolding cache_ok_def
  by (fastforce simp: get_append dest: get_Some_less)

lemma heap_ok_new:
  "heap_ok st \<Longrightarrow> \<bar>ts\<bar> \<le> 64800 \<Longrightarrow> heap_ok (snd (new_ZoneOffset ts st))"
  by (auto simp: heap_ok_def new_ok get_append MAX_SECONDS_eq split: if_splits)

lemma new_cases:
  obtains (ok) "\<bar>ts\<bar> \<le> 64800"
     "new_ZoneOffset ts st = (Inr (length (heap st)),
        st\<lparr>heap := heap st @ [ZoneOffset_obj \<lparr>f_totalSeconds = ts,
               f_rules = Fixed (length (heap st)), f_id = buildId ts\<rparr>]\<rparr>)"
  | (bad) "\<bar>ts\<bar> > 64800"
     "new_ZoneOffset ts st =
        (Inl (DateTimeException ''Zone offset not in valid range: -18:00 to +18:00''), st)"
  using new_ok[of ts st] new_bad[of ts st] by (cases "\<bar>ts\<bar> \<le> 64800") auto

lemma new_preserves:
  assumes "heap_ok st" "cache_ok st"
  shows "heap_ok (snd (new_ZoneOffset ts st)) \<and> cache_ok (snd (new_ZoneOffset ts st))
         \<and> extends st (snd (new_ZoneOffset ts st))"
proof (cases ts st rule: new_cases)
  case ok
  then show ?thesis
    using assms heap_ok_new[of st ts] cache_ok_append[of st] extends_append[of st]
    by simp
next
  case bad
  then show ?thesis using assms by (simp add: extends_refl)
qed

text \<open>The outcomes of \<open>ofTotalSeconds\<close>: a hit, a miss in range, an unaligned argument, a miss out of range.\<close>

lemma ofTotalSeconds_hit:
  "900 dvd ts \<Longrightarrow> SECONDS_CACHE st ts = Some r \<Longrightarrow> ofTotalSeconds ts st = (Inr r, st)"
  by (simp add: ofTotalSeconds_def aligned_iff)

lemma ofTotalSeconds_miss:
  "900 dvd ts \<Longrightarrow> SECONDS_CACHE st ts = None \<Longrightarrow> \<bar>ts\<bar> \<le> 64800 \<Longrightarrow>
   ofTotalSeconds ts st =
     (Inr (length (heap st)),
      st\<lparr>heap := heap st @ [ZoneOffset_obj \<lparr>f_totalSeconds = ts,
               f_rules = Fixed (length (heap st)), f_id = buildId ts\<rparr>],
         SECONDS_CACHE := (SECONDS_CACHE st)(ts \<mapsto> length (heap st))\<rparr>)"
  by (simp add: ofTotalSeconds_def aligned_iff new_ok)

lemma ofTotalSeconds_unaligned:
  "\<not> 900 dvd ts \<Longrightarrow> ofTotalSeconds ts st = new_ZoneOffset ts st"
  by (simp add: ofTotalSeconds_def aligned_iff)

lemma ofTotalSeconds_bad:
  "\<bar>ts\<bar> > 64800 \<Longrightarrow> SECONDS_CACHE st ts = None \<Longrightarrow>
   ofTotalSeconds ts st =
     (Inl (DateTimeException ''Zone offset not in valid range: -18:00 to +18:00''), st)"
  by (simp add: ofTotalSeconds_def new_bad)

lemma ofTotalSeconds_preserves:
  assumes "heap_ok st" "cache_ok st"
  shows "heap_ok (snd (ofTotalSeconds ts st)) \<and> cache_ok (snd (ofTotalSeconds ts st))
         \<and> extends st (snd (ofTotalSeconds ts st))"
proof (cases "900 dvd ts")
  case False
  then show ?thesis using new_preserves[OF assms] by (simp add: ofTotalSeconds_unaligned)
next
  case al: True
  show ?thesis
  proof (cases "SECONDS_CACHE st ts")
    case (Some r)
    then show ?thesis using al assms by (simp add: ofTotalSeconds_hit extends_refl)
  next
    case None
    show ?thesis
    proof (cases "\<bar>ts\<bar> \<le> 64800")
      case False
      then show ?thesis using None assms by (simp add: ofTotalSeconds_bad extends_refl)
    next
      case True
      let ?st1 = "snd (new_ZoneOffset ts st)"
      have eq: "snd (ofTotalSeconds ts st) = ?st1\<lparr>SECONDS_CACHE := (SECONDS_CACHE st)(ts \<mapsto> length (heap st))\<rparr>"
        using al None True by (simp add: ofTotalSeconds_miss new_ok)
      have h1: "heap_ok ?st1" and c1: "cache_ok ?st1" and e1: "extends st ?st1"
        using new_preserves[OF assms] by auto
      have g: "get_ZoneOffset ?st1 (length (heap st)) = Some \<lparr>f_totalSeconds = ts,
               f_rules = Fixed (length (heap st)), f_id = buildId ts\<rparr>"
        using True by (simp add: new_ok get_append)
      have cs: "SECONDS_CACHE ?st1 = SECONDS_CACHE st"
        using True by (simp add: new_ok)
      have "heap_ok (snd (ofTotalSeconds ts st))"
        using h1 unfolding eq heap_ok_def by simp
      moreover have "cache_ok (snd (ofTotalSeconds ts st))"
        using c1 g al True unfolding eq cache_ok_def cs
        by (auto simp: aligned_iff MAX_SECONDS_eq)
      moreover have "extends st (snd (ofTotalSeconds ts st))"
        using e1 None unfolding eq extends_def by auto
      ultimately show ?thesis by simp
    qed
  qed
qed

subsection \<open>The triple validator and runs\<close>

lemma validate_characterised:
  "validate h m s =
     (case first_violation h m s of None \<Rightarrow> Inr () | Some k \<Rightarrow> Inl (rule_error k h m s))"
  unfolding validate_def sign_check_def first_violation_def rule_error_def
  by auto

lemma validate_bound:
  assumes "validate h m s = Inr ()"
  shows "\<bar>h * 3600 + m * 60 + s\<bar> \<le> 64800"
proof -
  have fv: "first_violation h m s = None"
    using assms by (simp add: validate_characterised split: option.splits)
  then have hr: "-18 \<le> h" "h \<le> 18" and mr: "\<bar>m\<bar> \<le> 59" and sr: "\<bar>s\<bar> \<le> 59"
    and b: "\<bar>h\<bar> = 18 \<Longrightarrow> m = 0 \<and> s = 0"
    by (auto simp: first_violation_def split: if_splits)
  show ?thesis
  proof (cases "\<bar>h\<bar> = 18")
    case True
    then show ?thesis using b by auto
  next
    case False
    then have "\<bar>h\<bar> \<le> 17" using hr by linarith
    then show ?thesis using mr sr by linarith
  qed
qed

lemma ofHoursMinutesSeconds_cases:
  "ofHoursMinutesSeconds h m s st =
     (case validate h m s of Inl e \<Rightarrow> (Inl e, st)
      | Inr _ \<Rightarrow> ofTotalSeconds (h * 3600 + m * 60 + s) st)"
  by (cases "validate h m s")
     (simp_all add: ofHoursMinutesSeconds_def SECONDS_PER_HOUR_def SECONDS_PER_MINUTE_def Let_def)

lemma exec_preserves:
  assumes "heap_ok st" "cache_ok st"
  shows "heap_ok (snd (exec a st)) \<and> cache_ok (snd (exec a st)) \<and> extends st (snd (exec a st))"
proof (cases a)
  case (OfHours h)
  then show ?thesis
    using assms ofTotalSeconds_preserves[OF assms]
    by (simp add: ofHours_def ofHoursMinutesSeconds_cases extends_refl split: sum.splits)
next
  case (OfHoursMinutes h m)
  then show ?thesis
    using assms ofTotalSeconds_preserves[OF assms]
    by (simp add: ofHoursMinutes_def ofHoursMinutesSeconds_cases extends_refl split: sum.splits)
next
  case (OfHoursMinutesSeconds h m s)
  then show ?thesis
    using assms ofTotalSeconds_preserves[OF assms]
    by (simp add: ofHoursMinutesSeconds_cases extends_refl split: sum.splits)
next
  case (OfTotalMinutes tm)
  then show ?thesis
    using ofTotalSeconds_preserves[OF assms] by (simp add: ofTotalMinutes_def Let_def)
next
  case (OfTotalSeconds ts)
  then show ?thesis using ofTotalSeconds_preserves[OF assms] by simp
next
  case (New ts)
  then show ?thesis using new_preserves[OF assms] by simp
next
  case Alloc_foreign
  then show ?thesis
    using assms by (simp add: heap_ok_foreign cache_ok_append extends_append)
qed

lemma run_preserves:
  "heap_ok st \<Longrightarrow> cache_ok st \<Longrightarrow>
   heap_ok (run as st) \<and> cache_ok (run as st) \<and> extends st (run as st)"
proof (induction as arbitrary: st)
  case Nil
  then show ?case by (simp add: extends_refl)
next
  case (Cons a as)
  from exec_preserves[OF Cons.prems]
  have 1: "heap_ok (snd (exec a st))" "cache_ok (snd (exec a st))" "extends st (snd (exec a st))"
    by auto
  from Cons.IH[OF 1(1) 1(2)] 1(3) show ?case
    by (auto intro: extends_trans)
qed

lemma initial_ok: "heap_ok initial_state" "cache_ok initial_state"
  by (simp_all add: heap_ok_def cache_ok_def initial_state_def get_ZoneOffset_def)

lemma running_ok: "heap_ok (run as initial_state)" "cache_ok (run as initial_state)"
  using run_preserves[OF initial_ok, of as] by auto

lemma run_append: "run (as @ bs) st = run bs (run as st)"
  by (induction as arbitrary: st) auto

lemma init_is_run:
  "init initial_state =
     run [OfTotalSeconds 0, OfTotalSeconds (- 64800), OfTotalSeconds 64800] initial_state"
  by (simp add: init_def MAX_SECONDS_eq Let_def)

lemma rule_error_distinct:
  "distinct (map (\<lambda>k. rule_error k h m s) [1, 2, 3, 4, 5, 6, 7])"
  by (simp add: rule_error_def)

subsection \<open>Reading an id back\<close>

lemma digit_char_code: "d < 10 \<Longrightarrow> (of_char (digit_char d) :: nat) = 48 + d"
  unfolding digit_char_def by (auto)

lemma digit_char_inj: "a < 10 \<Longrightarrow> b < 10 \<Longrightarrow> digit_char a = digit_char b \<Longrightarrow> a = b"
proof -
  assume a: "a < 10" and b: "b < 10" and e: "digit_char a = digit_char b"
  have "(of_char (digit_char a) :: nat) = of_char (digit_char b)" by (simp only: e)
  then have "48 + a = 48 + b" by (simp only: digit_char_code[OF a] digit_char_code[OF b])
  then show "a = b" by simp
qed

lemma two_digits_inj:
  fixes a b :: int
  assumes a: "0 \<le> a" "a < 100" and b: "0 \<le> b" "b < 100"
    and eq: "zero_padded2 a = zero_padded2 b"
  shows "a = b"
proof -
  have e: "digit_char (nat a div 10) = digit_char (nat b div 10)"
          "digit_char (nat a mod 10) = digit_char (nat b mod 10)"
    using eq by (simp_all add: zero_padded2_small a b)
  have "nat a div 10 < 10" "nat b div 10 < 10" using a b by auto
  with e(1) have d: "nat a div 10 = nat b div 10" by (rule_tac digit_char_inj)
  have "nat a mod 10 = nat b mod 10" using e(2) by (intro digit_char_inj) auto
  with d have "nat a = nat b" by (metis div_mult_mod_eq)
  then show ?thesis using a b by simp
qed

lemma hms_recompose: "(a::int) = (a div 3600) * 3600 + ((a div 60) mod 60) * 60 + a mod 60"
proof -
  have 1: "a div 3600 = (a div 60) div 60"
    by (simp add: div_mult2_eq[symmetric])
  have 2: "a = (a div 60) * 60 + a mod 60" by simp
  have 3: "a div 60 = ((a div 60) div 60) * 60 + (a div 60) mod 60" by simp
  show ?thesis unfolding 1 using 2 3 by linarith
qed

lemma buildId_nonzero_shape:
  assumes "\<bar>ts\<bar> \<le> 64800" "ts \<noteq> 0"
  shows "buildId ts =
      (if ts < 0 then CHR ''-'' else CHR ''+'')
      # zero_padded2 (\<bar>ts\<bar> div 3600) @ CHR '':'' # zero_padded2 ((\<bar>ts\<bar> div 60) mod 60)
      @ (if \<bar>ts\<bar> mod 60 \<noteq> 0 then CHR '':'' # zero_padded2 (\<bar>ts\<bar> mod 60) else [])"
  using buildId_general[OF assms(1)] assms(2) by simp

lemma buildId_inj_aux:
  assumes v1: "\<bar>ts1\<bar> \<le> 64800" and v2: "\<bar>ts2\<bar> \<le> 64800"
    and eq: "buildId ts1 = buildId ts2"
  shows "ts1 = ts2"
proof (cases "ts1 = 0 \<or> ts2 = 0")
  case True
  then show ?thesis
  proof
    assume z: "ts1 = 0"
    show ?thesis
    proof (rule ccontr)
      assume "ts1 \<noteq> ts2"
      then have "ts2 \<noteq> 0" using z by simp
      from buildId_nonzero_shape[OF v2 this] eq z show False
        by (simp add: buildId_def split: if_splits)
    qed
  next
    assume z: "ts2 = 0"
    show ?thesis
    proof (rule ccontr)
      assume "ts1 \<noteq> ts2"
      then have "ts1 \<noteq> 0" using z by simp
      from buildId_nonzero_shape[OF v1 this] eq z show False
        by (simp add: buildId_def split: if_splits)
    qed
  qed
next
  case False
  then have nz: "ts1 \<noteq> 0" "ts2 \<noteq> 0" by auto
  let ?H1 = "\<bar>ts1\<bar> div 3600" and ?M1 = "(\<bar>ts1\<bar> div 60) mod 60" and ?S1 = "\<bar>ts1\<bar> mod 60"
  let ?H2 = "\<bar>ts2\<bar> div 3600" and ?M2 = "(\<bar>ts2\<bar> div 60) mod 60" and ?S2 = "\<bar>ts2\<bar> mod 60"
  have rH1: "0 \<le> ?H1" "?H1 < 100" using v1 by auto
  have rH2: "0 \<le> ?H2" "?H2 < 100" using v2 by auto
  have rM1: "0 \<le> ?M1" "?M1 < 100" by auto
  have rM2: "0 \<le> ?M2" "?M2 < 100" by auto
  have rS1: "0 \<le> ?S1" "?S1 < 100" by auto
  have rS2: "0 \<le> ?S2" "?S2 < 100" by auto
  obtain a1 b1 where H1: "zero_padded2 ?H1 = [a1, b1]"
    using zero_padded2_small[OF rH1] by simp
  obtain a2 b2 where H2: "zero_padded2 ?H2 = [a2, b2]"
    using zero_padded2_small[OF rH2] by simp
  obtain c1 d1 where M1: "zero_padded2 ?M1 = [c1, d1]"
    using zero_padded2_small[OF rM1] by simp
  obtain c2 d2 where M2: "zero_padded2 ?M2 = [c2, d2]"
    using zero_padded2_small[OF rM2] by simp
  obtain e1 f1 where S1: "zero_padded2 ?S1 = [e1, f1]"
    using zero_padded2_small[OF rS1] by simp
  obtain e2 f2 where S2: "zero_padded2 ?S2 = [e2, f2]"
    using zero_padded2_small[OF rS2] by simp
  from eq have shape:
    "(if ts1 < 0 then CHR ''-'' else CHR ''+'') # [a1, b1] @ CHR '':'' # [c1, d1]
        @ (if ?S1 \<noteq> 0 then CHR '':'' # [e1, f1] else [])
     = (if ts2 < 0 then CHR ''-'' else CHR ''+'') # [a2, b2] @ CHR '':'' # [c2, d2]
        @ (if ?S2 \<noteq> 0 then CHR '':'' # [e2, f2] else [])"
    unfolding buildId_nonzero_shape[OF v1 nz(1)] buildId_nonzero_shape[OF v2 nz(2)]
      H1 H2 M1 M2 S1 S2 .
  then have sg: "(ts1 < 0) = (ts2 < 0)" by (simp split: if_splits)
  from shape have "[a1, b1] = [a2, b2]" by simp
  then have "zero_padded2 ?H1 = zero_padded2 ?H2" by (simp only: H1 H2)
  then have H: "?H1 = ?H2" by (rule two_digits_inj[OF rH1 rH2])
  from shape have "[c1, d1] = [c2, d2]" by simp
  then have "zero_padded2 ?M1 = zero_padded2 ?M2" by (simp only: M1 M2)
  then have M: "?M1 = ?M2" by (rule two_digits_inj[OF rM1 rM2])
  from shape have tl: "(if ?S1 \<noteq> 0 then CHR '':'' # [e1, f1] else [])
     = (if ?S2 \<noteq> 0 then CHR '':'' # [e2, f2] else [])" by simp
  have S: "?S1 = ?S2"
  proof (cases "?S1 = 0")
    case True
    then show ?thesis using tl by (simp split: if_splits)
  next
    case False
    then have n2: "?S2 \<noteq> 0" using tl by (simp split: if_splits)
    with False tl have "[e1, f1] = [e2, f2]" by simp
    then have "zero_padded2 ?S1 = zero_padded2 ?S2" by (simp only: S1 S2)
    then show ?thesis by (rule two_digits_inj[OF rS1 rS2])
  qed
  have "\<bar>ts1\<bar> = \<bar>ts2\<bar>"
    using hms_recompose[of "\<bar>ts1\<bar>"] hms_recompose[of "\<bar>ts2\<bar>"] H M S by simp
  then show ?thesis using sg by linarith
qed

subsection \<open>The cache of the running module\<close>

lemma running_cache_entry:
  assumes "SECONDS_CACHE (run as initial_state) k = Some r"
  shows "\<bar>k\<bar> \<le> 64800" "900 dvd k"
    "\<exists>z. get_ZoneOffset (run as initial_state) r = Some z \<and> f_totalSeconds z = k"
  using running_ok(2)[of as] assms
  unfolding cache_ok_def by (auto simp: MAX_SECONDS_eq aligned_iff)

lemma running_no_entry_out_of_range:
  "\<bar>ts\<bar> > 64800 \<Longrightarrow> SECONDS_CACHE (run as initial_state) ts = None"
proof (rule ccontr)
  assume a: "\<bar>ts\<bar> > 64800" and "SECONDS_CACHE (run as initial_state) ts \<noteq> None"
  then obtain r where "SECONDS_CACHE (run as initial_state) ts = Some r" by auto
  from running_cache_entry(1)[OF this] a show False by simp
qed

lemma ofTotalSeconds_running_bad:
  "\<bar>ts\<bar> > 64800 \<Longrightarrow> ofTotalSeconds ts (run as initial_state) =
     (Inl (DateTimeException ''Zone offset not in valid range: -18:00 to +18:00''),
      run as initial_state)"
  by (simp add: ofTotalSeconds_bad running_no_entry_out_of_range)

lemma ofTotalSeconds_valid_result:
  assumes v: "\<bar>ts\<bar> \<le> 64800" and st: "st = run as initial_state"
  shows "\<exists>r z. fst (ofTotalSeconds ts st) = Inr r
           \<and> get_ZoneOffset (snd (ofTotalSeconds ts st)) r = Some z \<and> f_totalSeconds z = ts
           \<and> (900 dvd ts \<longrightarrow> SECONDS_CACHE (snd (ofTotalSeconds ts st)) ts = Some r)"
proof (cases "900 dvd ts")
  case False
  then show ?thesis using v by (simp add: ofTotalSeconds_unaligned new_ok get_append)
next
  case al: True
  show ?thesis
  proof (cases "SECONDS_CACHE st ts")
    case None
    then show ?thesis using v al by (simp add: ofTotalSeconds_miss get_append)
  next
    case (Some r)
    then obtain z where "get_ZoneOffset st r = Some z" "f_totalSeconds z = ts"
      using running_cache_entry(3)[of as ts r] st by auto
    then show ?thesis using al Some by (simp add: ofTotalSeconds_hit)
  qed
qed

subsection \<open>The instance methods on objects of the heap\<close>

lemma equals_objects:
  assumes "get_ZoneOffset st a = Some za" "get_ZoneOffset st b = Some zb"
  shows "equals st a (Object b) = Some (f_totalSeconds za = f_totalSeconds zb)"
  using assms by (auto simp: equals_def instanceof_ZoneOffset_def)

lemma equals_not_instance:
  assumes "get_ZoneOffset st this = Some t" "\<not> instanceof_ZoneOffset st x"
  shows "equals st this x = Some False"
  using assms by (auto simp: equals_def instanceof_ZoneOffset_def)

lemma hashCode_get: "get_ZoneOffset st r = Some z \<Longrightarrow> hashCode st r = Some (f_totalSeconds z)"
  by (simp add: hashCode_def)

subsection \<open>Later states of the running module\<close>

lemma run_snoc: "run (as @ [a]) st = snd (exec a (run as st))"
  by (simp add: run_append)

lemma after_call_running:
  "snd (ofTotalSeconds ts (run as initial_state)) = run (as @ [OfTotalSeconds ts]) initial_state"
  by (simp add: run_snoc)

lemma running_extends:
  "extends (run as initial_state) (run bs (run as initial_state))"
proof -
  have "heap_ok (run as initial_state)" "cache_ok (run as initial_state)"
    by (rule running_ok)+
  then show ?thesis using run_preserves by blast
qed

lemma cached_persists:
  assumes "SECONDS_CACHE (run as initial_state) ts = Some r"
  shows "ofTotalSeconds ts (run bs (run as initial_state)) = (Inr r, run bs (run as initial_state))"
    and "equals (run bs (run as initial_state)) r (Object r) = Some True"
    and "totalSeconds (run bs (run as initial_state)) r = Some ts"
proof -
  let ?st = "run as initial_state" and ?st' = "run bs (run as initial_state)"
  have ext: "extends ?st ?st'" by (rule running_extends)
  then have c: "SECONDS_CACHE ?st' ts = Some r" using assms by (simp add: extends_def)
  have al: "900 dvd ts" using running_cache_entry(2)[OF assms] .
  show "ofTotalSeconds ts ?st' = (Inr r, ?st')" using al c by (rule ofTotalSeconds_hit)
  obtain z where z: "get_ZoneOffset ?st r = Some z" "f_totalSeconds z = ts"
    using running_cache_entry(3)[OF assms] by auto
  then have z': "get_ZoneOffset ?st' r = Some z" using ext by (simp add: extends_def)
  show "equals ?st' r (Object r) = Some True" using equals_objects[OF z' z'] by simp
  show "totalSeconds ?st' r = Some ts" using z' z(2) by (simp add: totalSeconds_def)
qed

lemma cached_refs_allocated:
  "SECONDS_CACHE (run as initial_state) k = Some r \<Longrightarrow> r < length (heap (run as initial_state))"
  using running_cache_entry(3)[of as k r] by (auto dest: get_Some_less)

lemma running_ids:
  assumes "get_ZoneOffset (run as initial_state) a = Some za"
    and "get_ZoneOffset (run as initial_state) b = Some zb"
  shows "(f_id za = f_id zb) = (f_totalSeconds za = f_totalSeconds zb)"
proof -
  have h: "heap_ok (run as initial_state)" by (rule running_ok)
  from h assms(1) have a: "\<bar>f_totalSeconds za\<bar> \<le> 64800" "f_id za = buildId (f_totalSeconds za)"
    unfolding heap_ok_def by (auto simp: MAX_SECONDS_eq)
  from h assms(2) have b: "\<bar>f_totalSeconds zb\<bar> \<le> 64800" "f_id zb = buildId (f_totalSeconds zb)"
    unfolding heap_ok_def by (auto simp: MAX_SECONDS_eq)
  show ?thesis using buildId_inj_aux[OF a(1) b(1)] a(2) b(2) by auto
qed

subsection \<open>The examples of the specification\<close>

lemma buildId_examples:
  "buildId 0 = ''Z''" "buildId 9000 = ''+02:30''" "buildId (- 3661) = ''-01:01:01''"
  by (simp_all add: buildId_def intDiv_def intMod_def SECONDS_PER_HOUR_def
        SECONDS_PER_MINUTE_def MINUTES_PER_HOUR_def Number_toString_def decimal.simps
        digit_char_def)

section \<open>The properties of the specification\<close>

text \<open>
  C1. For every integer \<open>ts\<close> with \<open>abs(ts) \<le> 64800\<close>, in any state of the running
  module, \<open>ofTotalSeconds(ts)\<close> returns an offset (it does not throw), and
  \<open>totalSeconds()\<close> of that offset is \<open>ts\<close>.
\<close>

theorem ofTotalSeconds_totalSeconds:
  assumes "\<bar>ts\<bar> \<le> 64800"
  shows "\<exists>r st'. ofTotalSeconds ts (run as initial_state) = (Inr r, st')
            \<and> totalSeconds st' r = Some ts"
proof -
  from ofTotalSeconds_valid_result[OF assms refl, of as]
  obtain r z where
    "fst (ofTotalSeconds ts (run as initial_state)) = Inr r"
    "get_ZoneOffset (snd (ofTotalSeconds ts (run as initial_state))) r = Some z"
    "f_totalSeconds z = ts" by blast
  then show ?thesis
    by (cases "ofTotalSeconds ts (run as initial_state)") (simp add: totalSeconds_def)
qed

theorem ofTotalSeconds_totalSeconds_witness:
  "\<bar>9000::int\<bar> \<le> 64800 \<and>
   (\<exists>r st'. ofTotalSeconds 9000 (run [OfHours 2, OfTotalSeconds 9000] initial_state) = (Inr r, st')
      \<and> totalSeconds st' r = Some 9000)"
  using ofTotalSeconds_totalSeconds[of 9000 "[OfHours 2, OfTotalSeconds 9000]"] by simp

text \<open>
  C2. For every integer \<open>ts\<close> with \<open>abs(ts) > 64800\<close>, in any state of the running
  module, \<open>ofTotalSeconds(ts)\<close> throws the \<open>DateTimeException\<close> whose message is
  \<open>Zone offset\<close> followed by \<open>not in valid range: -18:00 to +18:00\<close>, and the state
  is left as it was: no offset is created, none is cached.
\<close>

theorem ofTotalSeconds_out_of_range:
  assumes "\<bar>ts\<bar> > 64800"
  shows "ofTotalSeconds ts (run as initial_state) =
     (Inl (DateTimeException (''Zone offset '' @ ''not in valid range: -18:00 to +18:00'')),
      run as initial_state)"
  using ofTotalSeconds_running_bad[OF assms] by simp

theorem ofTotalSeconds_out_of_range_witness:
  "\<bar>64801::int\<bar> > 64800 \<and>
   ofTotalSeconds 64801 (run [OfTotalSeconds 900] initial_state) =
     (Inl (DateTimeException (''Zone offset '' @ ''not in valid range: -18:00 to +18:00'')),
      run [OfTotalSeconds 900] initial_state)"
  using ofTotalSeconds_out_of_range[of 64801 "[OfTotalSeconds 900]"] by simp

text \<open>
  C3. For every valid total \<open>ts\<close> the canonical id is \<open>Z\<close> when \<open>ts = 0\<close>; otherwise
  it is the sign character (\<open>+\<close> for positive, \<open>-\<close> for negative), the two-digit
  zero-padded hours \<open>|ts| / 3600\<close>, a colon, the two-digit zero-padded minutes
  \<open>(|ts| / 60) mod 60\<close> and, only when the seconds \<open>|ts| mod 60\<close> are not zero, a colon
  and the two-digit zero-padded seconds. In particular the ids of \<open>0\<close>, \<open>9000\<close> and
  \<open>-3661\<close> are \<open>Z\<close>, \<open>+02:30\<close> and \<open>-01:01:01\<close>.
\<close>

theorem buildId_canonical_form:
  "(\<bar>ts\<bar> \<le> 64800 \<longrightarrow>
      buildId ts =
       (if ts = 0 then ''Z''
        else (if ts < 0 then ''-'' else ''+'')
             @ zero_padded2 (\<bar>ts\<bar> div 3600) @ '':'' @ zero_padded2 ((\<bar>ts\<bar> div 60) mod 60)
             @ (if \<bar>ts\<bar> mod 60 \<noteq> 0 then '':'' @ zero_padded2 (\<bar>ts\<bar> mod 60) else '''')))
   \<and> buildId 0 = ''Z'' \<and> buildId 9000 = ''+02:30'' \<and> buildId (- 3661) = ''-01:01:01''"
  using buildId_general[of ts] buildId_examples by simp

theorem buildId_canonical_form_witness:
  "\<bar>- 3661 :: int\<bar> \<le> 64800 \<and>
   buildId (- 3661) = ''-'' @ zero_padded2 1 @ '':'' @ zero_padded2 1 @ '':'' @ zero_padded2 1
   \<and> zero_padded2 1 = ''01''"
  using buildId_canonical_form[of "- 3661"]
  by (simp add: zero_padded2_def Number_toString_def decimal.simps digit_char_def)

text \<open>
  C4. The triple validator checks the seven rules in their stated order, and the
  first rule that is broken decides the exception (the seven exceptions are pairwise
  different, so the exception names the rule): the hours range, the three sign rules,
  \<open>abs(minutes) \<le> 59\<close>, \<open>abs(seconds) \<le> 59\<close>, and at \<open>abs(hours) = 18\<close> zero minutes and
  seconds. In particular \<open>ofHoursMinutesSeconds(1, -1, 0)\<close> throws by rule 2 and
  \<open>ofHoursMinutesSeconds(18, 0, 1)\<close> throws by rule 7.
\<close>

theorem validate_first_violation_wins:
  "validate h m s =
     (case first_violation h m s of None \<Rightarrow> Inr () | Some k \<Rightarrow> Inl (rule_error k h m s))
   \<and> distinct (map (\<lambda>k. rule_error k h m s) [1, 2, 3, 4, 5, 6, 7])
   \<and> first_violation 1 (- 1) 0 = Some 2
   \<and> ofHoursMinutesSeconds 1 (- 1) 0 st = (Inl (rule_error 2 1 (- 1) 0), st)
   \<and> first_violation 18 0 1 = Some 7
   \<and> ofHoursMinutesSeconds 18 0 1 st = (Inl (rule_error 7 18 0 1), st)"
proof -
  have 1: "first_violation 1 (- 1) 0 = Some 2" by (simp add: first_violation_def)
  have 2: "first_violation 18 0 1 = Some 7" by (simp add: first_violation_def)
  show ?thesis
    using validate_characterised[of h m s] rule_error_distinct[of h m s] 1 2
    by (simp add: ofHoursMinutesSeconds_cases validate_characterised)
qed

theorem validate_first_violation_wins_witness:
  "validate 0 60 (- 1) = Inl (rule_error 4 0 60 (- 1))
   \<and> validate 0 60 61 = Inl (rule_error 5 0 60 61)
   \<and> validate (- 18) (- 60) (- 61) = Inl (rule_error 5 (- 18) (- 60) (- 61))
   \<and> validate 19 (- 60) 61 = Inl (rule_error 1 19 (- 60) 61)
   \<and> validate (- 18) 0 0 = Inr ()"
  using validate_first_violation_wins[of 0 60 "- 1"] validate_first_violation_wins[of 0 60 61]
    validate_first_violation_wins[of "- 18" "- 60" "- 61"]
    validate_first_violation_wins[of 19 "- 60" 61] validate_first_violation_wins[of "- 18" 0 0]
  by (simp add: first_violation_def)

text \<open>
  C5. Every factory ends in \<open>ofTotalSeconds\<close>: \<open>ofHours(h)\<close> is
  \<open>ofHoursMinutesSeconds(h, 0, 0)\<close>, \<open>ofHoursMinutes(h, m)\<close> is
  \<open>ofHoursMinutesSeconds(h, m, 0)\<close>, \<open>ofHoursMinutesSeconds(h, m, s)\<close> is, when the
  triple validator accepts, \<open>ofTotalSeconds(h*3600 + m*60 + s)\<close>, and
  \<open>ofTotalMinutes(tm)\<close> is \<open>ofTotalSeconds(tm*60)\<close>, each with the same result and the
  same effect on the state.
\<close>

theorem factories_normalise:
  "ofHours h st = ofHoursMinutesSeconds h 0 0 st
   \<and> ofHoursMinutes h m st = ofHoursMinutesSeconds h m 0 st
   \<and> (validate h m s = Inr () \<longrightarrow>
        ofHoursMinutesSeconds h m s st = ofTotalSeconds (h * 3600 + m * 60 + s) st)
   \<and> ofTotalMinutes tm st = ofTotalSeconds (tm * 60) st"
  by (simp add: ofHours_def ofHoursMinutes_def ofHoursMinutesSeconds_cases ofTotalMinutes_def
        SECONDS_PER_MINUTE_def)

theorem factories_normalise_witness:
  "ofHours 2 initial_state = ofHoursMinutesSeconds 2 0 0 initial_state
   \<and> ofHoursMinutes 2 30 initial_state = ofHoursMinutesSeconds 2 30 0 initial_state
   \<and> validate 2 30 0 = Inr ()
   \<and> ofHoursMinutesSeconds 2 30 0 initial_state = ofTotalSeconds 9000 initial_state
   \<and> ofTotalMinutes 150 initial_state = ofTotalSeconds 9000 initial_state"
proof -
  have v: "validate 2 30 0 = Inr ()"
    by (simp add: validate_def sign_check_def)
  show ?thesis using factories_normalise[of 2 initial_state 30 0 150] v by simp
qed

text \<open>
  C6. Let \<open>ts\<close> be valid and \<open>st\<close> a state of the running module. If \<open>ts\<close> is
  divisible by 900, \<open>ofTotalSeconds(ts)\<close> returns an offset \<open>r\<close> and leaves it in the
  cache under \<open>ts\<close>: on a miss \<open>r\<close> is a new object and the only changes are that
  object and that entry; on a hit \<open>r\<close> is the cached object and nothing changes; and
  after any further actions the call returns the same \<open>r\<close> again, without throwing
  and without changing the state, and \<open>r\<close> equals itself. If \<open>ts\<close> is not divisible by
  900, the call returns a new object and leaves the cache as it was, with no entry
  for \<open>ts\<close> and no entry referring to the new object.
\<close>

theorem ofTotalSeconds_cache_behaviour:
  assumes valid: "\<bar>ts\<bar> \<le> 64800"
    and st: "st = run as initial_state"
    and call: "ofTotalSeconds ts st = (res, st1)"
    and obj: "obj = ZoneOffset_obj \<lparr>f_totalSeconds = ts, f_rules = Fixed (length (heap st)),
                     f_id = buildId ts\<rparr>"
  shows "(900 dvd ts \<longrightarrow>
           (\<exists>r. res = Inr r \<and> SECONDS_CACHE st1 ts = Some r
              \<and> (SECONDS_CACHE st ts = None \<longrightarrow>
                    r = length (heap st) \<and>
                    st1 = st\<lparr>heap := heap st @ [obj],
                             SECONDS_CACHE := (SECONDS_CACHE st)(ts \<mapsto> r)\<rparr>)
              \<and> (SECONDS_CACHE st ts \<noteq> None \<longrightarrow> SECONDS_CACHE st ts = Some r \<and> st1 = st)
              \<and> (\<forall>bs. ofTotalSeconds ts (run bs st1) = (Inr r, run bs st1)
                     \<and> equals (run bs st1) r (Object r) = Some True)))
       \<and> (\<not> 900 dvd ts \<longrightarrow>
            res = Inr (length (heap st)) \<and> st1 = st\<lparr>heap := heap st @ [obj]\<rparr>
            \<and> get_ZoneOffset st (length (heap st)) = None
            \<and> SECONDS_CACHE st1 = SECONDS_CACHE st
            \<and> SECONDS_CACHE st1 ts = None
            \<and> length (heap st) \<notin> ran (SECONDS_CACHE st1))"
proof (cases "900 dvd ts")
  case False
  have new: "res = Inr (length (heap st))" "st1 = st\<lparr>heap := heap st @ [obj]\<rparr>"
    using call False valid obj by (simp_all add: ofTotalSeconds_unaligned new_ok)
  have none: "SECONDS_CACHE st ts = None"
  proof (rule ccontr)
    assume "SECONDS_CACHE st ts \<noteq> None"
    then obtain r where "SECONDS_CACHE st ts = Some r" by auto
    then show False using running_cache_entry(2)[of as ts r] False st by simp
  qed
  have "length (heap st) \<notin> ran (SECONDS_CACHE st)"
  proof
    assume "length (heap st) \<in> ran (SECONDS_CACHE st)"
    then obtain k where "SECONDS_CACHE st k = Some (length (heap st))" by (auto simp: ran_def)
    then show False using cached_refs_allocated[of as k "length (heap st)"] st by simp
  qed
  then show ?thesis using False new none by (simp add: get_fresh)
next
  case al: True
  have run1: "st1 = run (as @ [OfTotalSeconds ts]) initial_state"
    using call st after_call_running[of ts as] by simp
  obtain r where r: "res = Inr r" "SECONDS_CACHE st1 ts = Some r"
    using ofTotalSeconds_valid_result[OF valid st] call al by auto
  have later: "ofTotalSeconds ts (run bs st1) = (Inr r, run bs st1)
      \<and> equals (run bs st1) r (Object r) = Some True" for bs
    using cached_persists(1,2)[of "as @ [OfTotalSeconds ts]" ts r bs] r(2) run1 by simp
  have miss: "r = length (heap st) \<and>
        st1 = st\<lparr>heap := heap st @ [obj], SECONDS_CACHE := (SECONDS_CACHE st)(ts \<mapsto> r)\<rparr>"
    if "SECONDS_CACHE st ts = None"
  proof -
    have "(res, st1) = (Inr (length (heap st)),
        st\<lparr>heap := heap st @ [obj],
           SECONDS_CACHE := (SECONDS_CACHE st)(ts \<mapsto> length (heap st))\<rparr>)"
      unfolding call[symmetric] obj by (rule ofTotalSeconds_miss[OF al that valid])
    then have "res = Inr (length (heap st))"
      "st1 = st\<lparr>heap := heap st @ [obj],
           SECONDS_CACHE := (SECONDS_CACHE st)(ts \<mapsto> length (heap st))\<rparr>"
      by simp_all
    moreover from this(1) r(1) have "r = length (heap st)" by simp
    ultimately show ?thesis by simp
  qed
  have hit: "SECONDS_CACHE st ts = Some r \<and> st1 = st" if "SECONDS_CACHE st ts \<noteq> None"
  proof -
    from that obtain r0 where r0: "SECONDS_CACHE st ts = Some r0" by auto
    from ofTotalSeconds_hit[OF al r0] call r(1) have "r = r0" "st1 = st" by simp_all
    with r0 show ?thesis by simp
  qed
  have "\<exists>r. res = Inr r \<and> SECONDS_CACHE st1 ts = Some r
              \<and> (SECONDS_CACHE st ts = None \<longrightarrow>
                    r = length (heap st) \<and>
                    st1 = st\<lparr>heap := heap st @ [obj],
                             SECONDS_CACHE := (SECONDS_CACHE st)(ts \<mapsto> r)\<rparr>)
              \<and> (SECONDS_CACHE st ts \<noteq> None \<longrightarrow> SECONDS_CACHE st ts = Some r \<and> st1 = st)
              \<and> (\<forall>bs. ofTotalSeconds ts (run bs st1) = (Inr r, run bs st1)
                     \<and> equals (run bs st1) r (Object r) = Some True)"
  proof (intro exI[of _ r] conjI impI allI)
    show "res = Inr r" by (rule r(1))
    show "SECONDS_CACHE st1 ts = Some r" by (rule r(2))
    show "r = length (heap st)" if "SECONDS_CACHE st ts = None" using miss[OF that] by simp
    show "st1 = st\<lparr>heap := heap st @ [obj],
                             SECONDS_CACHE := (SECONDS_CACHE st)(ts \<mapsto> r)\<rparr>"
      if "SECONDS_CACHE st ts = None" using miss[OF that] by simp
    show "SECONDS_CACHE st ts = Some r" if "SECONDS_CACHE st ts \<noteq> None"
      using hit[OF that] by simp
    show "st1 = st" if "SECONDS_CACHE st ts \<noteq> None" using hit[OF that] by simp
    show "ofTotalSeconds ts (run bs st1) = (Inr r, run bs st1)" for bs using later[of bs] by simp
    show "equals (run bs st1) r (Object r) = Some True" for bs using later[of bs] by simp
  qed
  then show ?thesis using al by simp
qed

theorem ofTotalSeconds_cache_behaviour_witness:
  "\<bar>900::int\<bar> \<le> 64800 \<and> 900 dvd (900::int)
   \<and> SECONDS_CACHE initial_state 900 = None
   \<and> fst (ofTotalSeconds 900 initial_state) = Inr 0
   \<and> SECONDS_CACHE (snd (ofTotalSeconds 900 initial_state)) 900 = Some 0
   \<and> (\<forall>bs. ofTotalSeconds 900 (run bs (snd (ofTotalSeconds 900 initial_state)))
            = (Inr 0, run bs (snd (ofTotalSeconds 900 initial_state))))
   \<and> \<bar>1::int\<bar> \<le> 64800 \<and> \<not> 900 dvd (1::int)
   \<and> fst (ofTotalSeconds 1 initial_state) = Inr 0
   \<and> SECONDS_CACHE (snd (ofTotalSeconds 1 initial_state)) 1 = None"
proof -
  have c: "SECONDS_CACHE initial_state 900 = None" "length (heap initial_state) = 0"
    "SECONDS_CACHE initial_state 1 = None"
    by (simp_all add: initial_state_def)
  have p: "ofTotalSeconds ts initial_state
      = (fst (ofTotalSeconds ts initial_state), snd (ofTotalSeconds ts initial_state))" for ts
    by simp
  have r: "initial_state = run [] initial_state" by simp
  have v: "\<bar>900::int\<bar> \<le> 64800" "\<bar>1::int\<bar> \<le> 64800" by simp_all
  from ofTotalSeconds_cache_behaviour[OF v(1) r p refl] c
  have a: "fst (ofTotalSeconds 900 initial_state) = Inr 0
     \<and> SECONDS_CACHE (snd (ofTotalSeconds 900 initial_state)) 900 = Some 0
     \<and> (\<forall>bs. ofTotalSeconds 900 (run bs (snd (ofTotalSeconds 900 initial_state)))
            = (Inr 0, run bs (snd (ofTotalSeconds 900 initial_state))))"
    by auto
  from ofTotalSeconds_cache_behaviour[OF v(2) r p refl] c
  have b: "fst (ofTotalSeconds 1 initial_state) = Inr 0
     \<and> SECONDS_CACHE (snd (ofTotalSeconds 1 initial_state)) 1 = None"
    by simp
  show ?thesis using a b c(1) by simp
qed

text \<open>
  C7. For valid \<open>ts1\<close> and \<open>ts2\<close>, in any state of the running module,
  \<open>ofTotalSeconds(ts1).equals(ofTotalSeconds(ts2))\<close> is true exactly when
  \<open>ts1 = ts2\<close>, and the hash codes of the two offsets are \<open>ts1\<close> and \<open>ts2\<close>;
  \<open>equals(x)\<close> is false whenever \<open>x\<close> is not a \<open>ZoneOffset\<close>; \<open>hashCode()\<close> returns
  what \<open>totalSeconds()\<close> returns; and offsets that are equal have equal hash codes.
\<close>

theorem equals_hashCode_consistent:
  assumes v1: "\<bar>ts1\<bar> \<le> 64800" and v2: "\<bar>ts2\<bar> \<le> 64800"
    and c1: "ofTotalSeconds ts1 (run as initial_state) = (ra, st1)"
    and c2: "ofTotalSeconds ts2 st1 = (rb, st2)"
  shows "(\<exists>a b. ra = Inr a \<and> rb = Inr b
            \<and> equals st2 a (Object b) = Some (ts1 = ts2)
            \<and> hashCode st2 a = Some ts1 \<and> hashCode st2 b = Some ts2)
       \<and> (\<forall>st this x. get_ZoneOffset st this \<noteq> None \<and> \<not> instanceof_ZoneOffset st x
              \<longrightarrow> equals st this x = Some False)
       \<and> (\<forall>st this. hashCode st this = totalSeconds st this)
       \<and> (\<forall>st p q. equals st p (Object q) = Some True \<longrightarrow> hashCode st p = hashCode st q)"
proof -
  have run1: "st1 = run (as @ [OfTotalSeconds ts1]) initial_state"
    using c1 after_call_running[of ts1 as] by simp
  obtain a za where a: "ra = Inr a" "get_ZoneOffset st1 a = Some za" "f_totalSeconds za = ts1"
    using ofTotalSeconds_valid_result[OF v1 refl, of as] c1 by auto
  obtain b zb where b: "rb = Inr b" "get_ZoneOffset st2 b = Some zb" "f_totalSeconds zb = ts2"
    using ofTotalSeconds_valid_result[OF v2 run1] c2 by auto
  have "extends st1 st2"
    using ofTotalSeconds_preserves[of st1 ts2] running_ok[of "as @ [OfTotalSeconds ts1]"] c2
    unfolding run1 by simp
  then have a2: "get_ZoneOffset st2 a = Some za" using a(2) by (simp add: extends_def)
  have first: "\<exists>a b. ra = Inr a \<and> rb = Inr b
            \<and> equals st2 a (Object b) = Some (ts1 = ts2)
            \<and> hashCode st2 a = Some ts1 \<and> hashCode st2 b = Some ts2"
    using a(1) b(1) equals_objects[OF a2 b(2)] hashCode_get[OF a2] hashCode_get[OF b(2)] a(3) b(3)
    by simp
  have second: "equals st this x = Some False"
    if "get_ZoneOffset st this \<noteq> None \<and> \<not> instanceof_ZoneOffset st x" for st this x
    using that equals_not_instance[of st this _ x] by auto
  have third: "hashCode st this = totalSeconds st this" for st this
    by (simp add: hashCode_def totalSeconds_def)
  have fourth: "hashCode st p = hashCode st q" if e: "equals st p (Object q) = Some True" for st p q
  proof (cases "p = q")
    case True
    then show ?thesis by simp
  next
    case False
    then show ?thesis using e
      by (auto simp: equals_def hashCode_def instanceof_ZoneOffset_def
               split: option.splits if_splits)
  qed
  show ?thesis using first second third fourth by blast
qed

theorem equals_hashCode_consistent_witness:
  "\<bar>3600::int\<bar> \<le> 64800 \<and> \<bar>7::int\<bar> \<le> 64800
   \<and> (\<exists>a b. fst (ofTotalSeconds 7 initial_state) = Inr a
         \<and> fst (ofTotalSeconds 7 (snd (ofTotalSeconds 7 initial_state))) = Inr b
         \<and> equals (snd (ofTotalSeconds 7 (snd (ofTotalSeconds 7 initial_state)))) a (Object b)
             = Some True)
   \<and> (\<exists>a b. fst (ofTotalSeconds 3600 initial_state) = Inr a
         \<and> fst (ofTotalSeconds 7 (snd (ofTotalSeconds 3600 initial_state))) = Inr b
         \<and> equals (snd (ofTotalSeconds 7 (snd (ofTotalSeconds 3600 initial_state)))) a (Object b)
             = Some False)
   \<and> get_ZoneOffset (snd (ofTotalSeconds 7 initial_state)) 0 \<noteq> None
   \<and> \<not> instanceof_ZoneOffset (snd (ofTotalSeconds 7 initial_state)) Null
   \<and> equals (snd (ofTotalSeconds 7 initial_state)) 0 Null = Some False"
proof -
  have p: "ofTotalSeconds ts st = (fst (ofTotalSeconds ts st), snd (ofTotalSeconds ts st))"
    for ts st by simp
  have r: "ofTotalSeconds ts initial_state
      = (fst (ofTotalSeconds ts (run [] initial_state)), snd (ofTotalSeconds ts (run [] initial_state)))" for ts
    by simp
  have v: "\<bar>3600::int\<bar> \<le> 64800" "\<bar>7::int\<bar> \<le> 64800" by simp_all
  have g: "get_ZoneOffset (snd (ofTotalSeconds 7 initial_state)) 0 \<noteq> None"
    by (simp add: ofTotalSeconds_unaligned new_ok get_ZoneOffset_def initial_state_def)
  have n: "\<not> instanceof_ZoneOffset (snd (ofTotalSeconds 7 initial_state)) Null"
    by (simp add: instanceof_ZoneOffset_def)
  note t1 = equals_hashCode_consistent[OF v(2) v(2), of "[]", simplified run.simps, OF p p]
  note t2 = equals_hashCode_consistent[OF v(1) v(2), of "[]", simplified run.simps, OF p p]
  have e1: "\<exists>a b. fst (ofTotalSeconds 7 initial_state) = Inr a
         \<and> fst (ofTotalSeconds 7 (snd (ofTotalSeconds 7 initial_state))) = Inr b
         \<and> equals (snd (ofTotalSeconds 7 (snd (ofTotalSeconds 7 initial_state)))) a (Object b)
             = Some True"
    using t1 by auto
  have e2: "\<exists>a b. fst (ofTotalSeconds 3600 initial_state) = Inr a
         \<and> fst (ofTotalSeconds 7 (snd (ofTotalSeconds 3600 initial_state))) = Inr b
         \<and> equals (snd (ofTotalSeconds 7 (snd (ofTotalSeconds 3600 initial_state)))) a (Object b)
             = Some False"
    using t2 by auto
  have e3: "equals (snd (ofTotalSeconds 7 initial_state)) 0 Null = Some False"
    using t1 g n by blast
  show ?thesis using e1 e2 e3 g n by simp
qed

text \<open>
  C8. Whenever the triple validator accepts \<open>(h, m, s)\<close>, the total
  \<open>h*3600 + m*60 + s\<close> has absolute value at most 64800, the range check of the
  constructor accepts it, and \<open>ofHoursMinutesSeconds(h, m, s)\<close> returns an offset in
  every state.
\<close>

theorem validate_total_in_range:
  assumes "validate h m s = Inr ()"
  shows "\<bar>h * 3600 + m * 60 + s\<bar> \<le> 64800
       \<and> validateTotalSeconds (h * SECONDS_PER_HOUR + m * SECONDS_PER_MINUTE + s) = Inr ()
       \<and> (\<exists>r st'. ofHoursMinutesSeconds h m s st = (Inr r, st'))"
proof -
  let ?ts = "h * 3600 + m * 60 + s"
  have b: "\<bar>?ts\<bar> \<le> 64800" using assms by (rule validate_bound)
  have v: "validateTotalSeconds ?ts = Inr ()" using b by (rule validateTotalSeconds_ok)
  have "\<exists>r st'. ofTotalSeconds ?ts st = (Inr r, st')"
  proof (cases "900 dvd ?ts")
    case False
    then show ?thesis using b by (simp add: ofTotalSeconds_unaligned new_ok)
  next
    case True
    then show ?thesis using b
      by (cases "SECONDS_CACHE st ?ts") (simp_all add: ofTotalSeconds_miss ofTotalSeconds_hit)
  qed
  then show ?thesis using b v assms
    by (simp add: ofHoursMinutesSeconds_cases SECONDS_PER_HOUR_def SECONDS_PER_MINUTE_def)
qed

theorem validate_total_in_range_witness:
  "validate (- 17) (- 59) (- 59) = Inr ()
   \<and> \<bar>(- 17) * 3600 + (- 59) * 60 + (- 59) :: int\<bar> \<le> 64800
   \<and> (\<exists>r st'. ofHoursMinutesSeconds (- 17) (- 59) (- 59) initial_state = (Inr r, st'))"
proof -
  have v: "validate (- 17) (- 59) (- 59) = Inr ()"
    by (simp add: validate_def sign_check_def)
  show ?thesis using validate_total_in_range[OF v, of initial_state] v by simp
qed

text \<open>
  C9. If \<open>ts\<close> is divisible by 900 and out of range, the cache of the running module
  has no entry for \<open>ts\<close>; and in a state without such an entry \<open>ofTotalSeconds(ts)\<close>
  throws and returns the state as it was: the cache is unchanged, it still has no
  entry for \<open>ts\<close>, and every later action behaves as if the call had not happened.
\<close>

theorem ofTotalSeconds_failure_leaves_cache:
  assumes al: "900 dvd ts" and bad: "\<bar>ts\<bar> > 64800"
  shows "SECONDS_CACHE (run as initial_state) ts = None
       \<and> (SECONDS_CACHE st ts = None \<longrightarrow>
            (\<exists>e. ofTotalSeconds ts st = (Inl e, st))
            \<and> SECONDS_CACHE (snd (ofTotalSeconds ts st)) = SECONDS_CACHE st
            \<and> SECONDS_CACHE (snd (ofTotalSeconds ts st)) ts = None
            \<and> (\<forall>a. exec a (snd (ofTotalSeconds ts st)) = exec a st))"
  using running_no_entry_out_of_range[OF bad, of as] ofTotalSeconds_bad[OF bad, of st]
  by simp

theorem ofTotalSeconds_failure_leaves_cache_witness:
  "900 dvd (90000::int) \<and> \<bar>90000::int\<bar> > 64800
   \<and> SECONDS_CACHE (run [OfTotalSeconds 900] initial_state) 90000 = None
   \<and> (\<exists>e. ofTotalSeconds 90000 (run [OfTotalSeconds 900] initial_state)
             = (Inl e, run [OfTotalSeconds 900] initial_state))
   \<and> exec (OfTotalSeconds 900) (snd (ofTotalSeconds 90000 (run [OfTotalSeconds 900] initial_state)))
       = exec (OfTotalSeconds 900) (run [OfTotalSeconds 900] initial_state)"
proof -
  have h: "900 dvd (90000::int)" "\<bar>90000::int\<bar> > 64800" by simp_all
  from ofTotalSeconds_failure_leaves_cache[OF h,
         of "[OfTotalSeconds 900]" "run [OfTotalSeconds 900] initial_state"]
  show ?thesis using h by blast
qed

text \<open>
  C10. On the valid range the id builder is injective: different totals within
  \<open>\<plusminus>64800\<close> have different ids. Hence for the offsets of the running module
  \<open>equals\<close>, which compares the seconds, is the comparison of the ids.
\<close>

theorem buildId_injective:
  assumes "\<bar>ts1\<bar> \<le> 64800" and "\<bar>ts2\<bar> \<le> 64800"
  shows "(ts1 \<noteq> ts2 \<longrightarrow> buildId ts1 \<noteq> buildId ts2)
       \<and> (buildId ts1 = buildId ts2 \<longleftrightarrow> ts1 = ts2)
       \<and> (\<forall>as a b. get_ZoneOffset (run as initial_state) a \<noteq> None
                   \<and> get_ZoneOffset (run as initial_state) b \<noteq> None \<longrightarrow>
              equals (run as initial_state) a (Object b)
                = Some (id_of (run as initial_state) a = id_of (run as initial_state) b))"
proof -
  have obj: "equals (run as initial_state) a (Object b)
                = Some (id_of (run as initial_state) a = id_of (run as initial_state) b)"
    if "get_ZoneOffset (run as initial_state) a \<noteq> None
         \<and> get_ZoneOffset (run as initial_state) b \<noteq> None" for as a b
  proof -
    from that obtain za zb where z: "get_ZoneOffset (run as initial_state) a = Some za"
      "get_ZoneOffset (run as initial_state) b = Some zb" by auto
    show ?thesis using equals_objects[OF z] running_ids[OF z] z by (simp add: id_of_def)
  qed
  show ?thesis using buildId_inj_aux[OF assms] obj by blast
qed

theorem buildId_injective_witness:
  "\<bar>3600::int\<bar> \<le> 64800 \<and> \<bar>- 3600::int\<bar> \<le> 64800 \<and> (3600::int) \<noteq> - 3600
   \<and> buildId 3600 \<noteq> buildId (- 3600)
   \<and> get_ZoneOffset (run [New 3600, New (- 3600)] initial_state) 0 \<noteq> None
   \<and> get_ZoneOffset (run [New 3600, New (- 3600)] initial_state) 1 \<noteq> None
   \<and> equals (run [New 3600, New (- 3600)] initial_state) 0 (Object 1)
       = Some (id_of (run [New 3600, New (- 3600)] initial_state) 0
               = id_of (run [New 3600, New (- 3600)] initial_state) 1)"
proof -
  have v: "\<bar>3600::int\<bar> \<le> 64800" "\<bar>- 3600::int\<bar> \<le> 64800" by simp_all
  have g: "get_ZoneOffset (run [New 3600, New (- 3600)] initial_state) 0 \<noteq> None"
     "get_ZoneOffset (run [New 3600, New (- 3600)] initial_state) 1 \<noteq> None"
    by (simp_all add: new_ok get_ZoneOffset_def initial_state_def)
  note t = buildId_injective[OF v]
  have n: "buildId 3600 \<noteq> buildId (- 3600)" using t by simp
  have e: "equals (run [New 3600, New (- 3600)] initial_state) 0 (Object 1)
       = Some (id_of (run [New 3600, New (- 3600)] initial_state) 0
               = id_of (run [New 3600, New (- 3600)] initial_state) 1)"
    using t g by blast
  show ?thesis using n e g by simp
qed

end
